theory Spec2Isabelle
  imports Complex_Main "HOL-Library.Multiset"
begin

section \<open>The number model\<close>

text \<open>
  The engine computes with JavaScript numbers. They are modelled as real numbers with
  exact arithmetic: rounding, \<^verbatim>\<open>NaN\<close> and the infinities are outside the model.  Three
  consequences are kept in view throughout.
  \<^item> A division by zero yields \<^verbatim>\<open>Infinity\<close> or \<^verbatim>\<open>NaN\<close> in the source and \<open>0\<close> in HOL.  The
    only divisor a caller controls is the resolution: every statement below about what a
    sampling loop computes, or about its not returning, assumes a resolution other than
    \<open>0\<close>; the statement about the order of the rules compares two runs of the same loops
    and does not depend on what they compute.  The divisions of the triangular shape are
    guarded by the source's own comparisons.
  \<^item> A JavaScript object used as a record (\<^verbatim>\<open>Record<string, T>\<close>) is the association list
    that \<^verbatim>\<open>Object.entries\<close> enumerates; \<^verbatim>\<open>obj[k]\<close> is \<open>map_of obj k\<close> and \<^verbatim>\<open>obj[k] = v\<close> is
    \<open>assign obj k v\<close>.  Keys that collide with properties inherited from
    \<^verbatim>\<open>Object.prototype\<close> are outside the model.
  \<^item> A sampling loop may run forever (a step of zero never passes the upper bound), so
    the loops are partial functions into \<open>option\<close>: \<open>None\<close> is a call that does not return.
\<close>

section \<open>types.ts\<close>

type_synonym MembershipFunction = "real \<Rightarrow> real"

type_synonym FuzzySet = "(string \<times> MembershipFunction) list"

text \<open>The antecedent of a rule names, for a variable, one term or an array of terms.  The
  data model requires the array to be non-empty; the type has no empty array (on an empty
  array the source reads element 0 of an empty array, and the firing strength is
  \<^verbatim>\<open>NaN\<close>).\<close>

datatype RuleTerms = Single string | Many string "string list"

record FuzzyRule =
  rule_if :: "(string \<times> RuleTerms) list"
  rule_then :: "(string \<times> string) list"
  weight :: "real option"
  description :: "string option"

datatype DefuzzificationMethod = Centroid | Bisector | Mom | Som | Lom

datatype AndMethod = AndMin | AndProduct

datatype OrMethod = OrMax | OrSum | OrProbor

datatype ImplicationMethod = ImpMin | ImpProduct

datatype AggregationMethod = AggMax | AggSum



record Contribution =
  c_term :: string
  c_strength :: real



text \<open>Every error of the source is an \<^verbatim>\<open>Error\<close> with a message; the constructors are the
  messages, in the order of the source.\<close>

datatype error =
    InvalidTriangular
  | UnknownVariableAntecedent string
  | UnknownTerm string string
  | UnknownVariableConsequent string
  | NotAnOutputVariable string
  | UnknownOutputTerm string string

text \<open>\<^verbatim>\<open>obj[k] = v\<close>: the value of an existing key is replaced in place, a new key is
  appended.\<close>

fun assign :: "(string \<times> 'a) list \<Rightarrow> string \<Rightarrow> 'a \<Rightarrow> (string \<times> 'a) list" where
  "assign [] k v = [(k, v)]"
| "assign ((k', v') # kvs) k v =
     (if k' = k then (k', v) # kvs else (k', v') # assign kvs k v)"


section \<open>membership.ts\<close>

definition triangular_mf :: "real \<Rightarrow> real \<Rightarrow> real \<Rightarrow> MembershipFunction" where
  "triangular_mf a b c x =
     (if x \<le> a \<or> x \<ge> c then 0
      else if x = b then 1
      else if x < b then (x - a) / (b - a)
      else (c - x) / (c - b))"

definition triangular :: "real \<Rightarrow> real \<Rightarrow> real \<Rightarrow> error + MembershipFunction" where
  "triangular a b c =
     (if a > b \<or> b > c then Inl InvalidTriangular else Inr (triangular_mf a b c))"

section \<open>operators.ts\<close>











text \<open>The mirror loop \<^verbatim>\<open>for (let x = x0; x >= lo; x -= step) body\<close>.\<close>

partial_function (option) for_down ::
  "(real \<Rightarrow> 's \<Rightarrow> 's + 'r) \<Rightarrow> real \<Rightarrow> real \<Rightarrow> real \<Rightarrow> 's \<Rightarrow> ('s + 'r) option" where
  "for_down body lo step x s =
     (if x \<ge> lo
      then (case body x s of
              Inl s' \<Rightarrow> for_down body lo step (x - step) s'
            | Inr r \<Rightarrow> Some (Inr r))
      else Some (Inl s))"




section \<open>defuzzification.ts\<close>









section \<open>engine.ts\<close>

record Variable =
  var_name :: string
  var_sets :: FuzzySet
  var_range :: "real \<times> real"
  isOutput :: bool

text \<open>The state of a \<^verbatim>\<open>FuzzyEngine\<close> object: the registry (a \<^verbatim>\<open>Map\<close>), the rules in
  registration order, and the configuration.\<close>

record FuzzyEngine =
  variables :: "string \<rightharpoonup> Variable"
  rules :: "FuzzyRule list"
  defuzzificationMethod :: DefuzzificationMethod
  andMethod :: AndMethod
  orMethod :: OrMethod
  implicationMethod :: ImplicationMethod
  aggregationMethod :: AggregationMethod
  resolution :: real

definition initial_engine :: FuzzyEngine where
  "initial_engine =
     \<lparr>variables = Map.empty, rules = [],
      defuzzificationMethod = Centroid, andMethod = AndMin, orMethod = OrMax,
      implicationMethod = ImpMin, aggregationMethod = AggMax, resolution = 100\<rparr>"


definition testPoints :: "real list" where
  "testPoints = [-1000, -100, -10, 0, 10, 100, 1000]"

definition inferRange :: "FuzzySet \<Rightarrow> real \<times> real" where
  "inferRange fsets =
     foldl (\<lambda>acc mf.
              foldl (\<lambda>(mn, mx) x.
                       if mf x > 1 / 100 then (min mn x, max mx x) else (mn, mx))
                acc testPoints)
       (0, 100) (map snd fsets)"

definition addVariable ::
  "FuzzyEngine \<Rightarrow> string \<Rightarrow> FuzzySet \<Rightarrow> (real \<times> real) option \<Rightarrow> FuzzyEngine" where
  "addVariable e name fsets range_opt =
     (let inferredRange = (case range_opt of Some r \<Rightarrow> r | None \<Rightarrow> inferRange fsets)
      in e\<lparr>variables := (variables e)(name \<mapsto>
             \<lparr>var_name = name, var_sets = fsets, var_range = inferredRange,
              isOutput = False\<rparr>)\<rparr>)"

definition addOutput ::
  "FuzzyEngine \<Rightarrow> string \<Rightarrow> FuzzySet \<Rightarrow> (real \<times> real) option \<Rightarrow> FuzzyEngine" where
  "addOutput e name fsets range_opt =
     (let inferredRange = (case range_opt of Some r \<Rightarrow> r | None \<Rightarrow> inferRange fsets)
      in e\<lparr>variables := (variables e)(name \<mapsto>
             \<lparr>var_name = name, var_sets = fsets, var_range = inferredRange,
              isOutput = True\<rparr>)\<rparr>)"

text \<open>\<^verbatim>\<open>Array.isArray(terms) ? terms : [terms]\<close>\<close>

fun termList :: "RuleTerms \<Rightarrow> string list" where
  "termList (Single t) = [t]"
| "termList (Many t ts) = t # ts"

fun validateTerms :: "Variable \<Rightarrow> string \<Rightarrow> string list \<Rightarrow> error + unit" where
  "validateTerms variable varName [] = Inr ()"
| "validateTerms variable varName (t # ts) =
     (case map_of (var_sets variable) t of
        None \<Rightarrow> Inl (UnknownTerm t varName)
      | Some mf \<Rightarrow> validateTerms variable varName ts)"

fun validateAntecedent :: "FuzzyEngine \<Rightarrow> (string \<times> RuleTerms) list \<Rightarrow> error + unit" where
  "validateAntecedent e [] = Inr ()"
| "validateAntecedent e ((varName, terms) # rest) =
     (case variables e varName of
        None \<Rightarrow> Inl (UnknownVariableAntecedent varName)
      | Some variable \<Rightarrow>
          (case validateTerms variable varName (termList terms) of
             Inl err \<Rightarrow> Inl err
           | Inr u \<Rightarrow> validateAntecedent e rest))"

fun validateConsequent :: "FuzzyEngine \<Rightarrow> (string \<times> string) list \<Rightarrow> error + unit" where
  "validateConsequent e [] = Inr ()"
| "validateConsequent e ((varName, t) # rest) =
     (case variables e varName of
        None \<Rightarrow> Inl (UnknownVariableConsequent varName)
      | Some variable \<Rightarrow>
          if \<not> isOutput variable then Inl (NotAnOutputVariable varName)
          else (case map_of (var_sets variable) t of
                  None \<Rightarrow> Inl (UnknownOutputTerm t varName)
                | Some mf \<Rightarrow> validateConsequent e rest))"

definition validateRule :: "FuzzyEngine \<Rightarrow> FuzzyRule \<Rightarrow> error + unit" where
  "validateRule e rule =
     (case validateAntecedent e (rule_if rule) of
        Inl err \<Rightarrow> Inl err
      | Inr u \<Rightarrow> validateConsequent e (rule_then rule))"

text \<open>A method that may throw yields the thrown error or its return value, and the state the
  engine is left in.\<close>

definition addRule :: "FuzzyEngine \<Rightarrow> FuzzyRule \<Rightarrow> (error + unit) \<times> FuzzyEngine" where
  "addRule e rule =
     (case validateRule e rule of
        Inl err \<Rightarrow> (Inl err, e)
      | Inr u \<Rightarrow> (Inr (), e\<lparr>rules := rules e @ [rule]\<rparr>))"

fun addRules :: "FuzzyEngine \<Rightarrow> FuzzyRule list \<Rightarrow> (error + unit) \<times> FuzzyEngine" where
  "addRules e [] = (Inr (), e)"
| "addRules e (rule # rest) =
     (case addRule e rule of
        (Inl err, e') \<Rightarrow> (Inl err, e')
      | (Inr u, e') \<Rightarrow> addRules e' rest)"

definition clearRules :: "FuzzyEngine \<Rightarrow> FuzzyEngine" where
  "clearRules e = e\<lparr>rules := []\<rparr>"

definition getRules :: "FuzzyEngine \<Rightarrow> FuzzyRule list" where
  "getRules e = rules e"




definition applyImplication ::
  "FuzzyEngine \<Rightarrow> MembershipFunction \<Rightarrow> real \<Rightarrow> MembershipFunction" where
  "applyImplication e mf strength =
     (if implicationMethod e = ImpMin
      then (\<lambda>x. min (mf x) strength)
      else (\<lambda>x. mf x * strength))"








section \<open>Notions used in the statements\<close>

text \<open>The probe points at which at least one of the given membership functions exceeds
  \<open>0.01\<close>.\<close>

definition exceeding :: "MembershipFunction list \<Rightarrow> real set" where
  "exceeding mfs = {x \<in> set testPoints. \<exists>mf \<in> set mfs. mf x > 1 / 100}"


text \<open>The implied functions that a sequence of contributions gives to the output variable
  \<open>k\<close>, in order: the functions \<^verbatim>\<open>aggregate\<close> pushes onto \<^verbatim>\<open>aggregated[k]\<close>.\<close>

definition impliedFor ::
  "FuzzyEngine \<Rightarrow> string \<Rightarrow> (string \<times> Contribution) list \<Rightarrow> MembershipFunction list" where
  "impliedFor e k entries =
     concat (map (\<lambda>(outputVar, c).
                    if outputVar = k
                    then (case variables e k of
                            None \<Rightarrow> []
                          | Some variable \<Rightarrow>
                              (case map_of (var_sets variable) (c_term c) of
                                 None \<Rightarrow> []
                               | Some baseMF \<Rightarrow> [applyImplication e baseMF (c_strength c)]))
                    else []) entries)"






section \<open>Configurations used as examples\<close>

text \<open>One input variable and one output variable with three triangular terms each, both
  registered with the explicit range \<open>[0, 100]\<close>, and rules over them.\<close>

definition example_engine :: FuzzyEngine where
  "example_engine =
     addOutput
       (addVariable initial_engine ''temperature''
          [(''cold'', triangular_mf 0 20 40), (''warm'', triangular_mf 30 50 70),
           (''hot'', triangular_mf 60 80 100)] (Some (0, 100)))
       ''fanSpeed''
       [(''low'', triangular_mf 0 25 50), (''medium'', triangular_mf 30 50 70),
        (''high'', triangular_mf 50 75 100)] (Some (0, 100))"

definition rule_warm :: FuzzyRule where
  "rule_warm =
     \<lparr>rule_if = [(''temperature'', Single ''warm'')],
      rule_then = [(''fanSpeed'', ''medium'')], weight = None, description = None\<rparr>"

definition rule_hot :: FuzzyRule where
  "rule_hot =
     \<lparr>rule_if = [(''temperature'', Single ''hot'')],
      rule_then = [(''fanSpeed'', ''high'')], weight = None, description = None\<rparr>"

text \<open>A rule whose antecedent names an unknown term of a registered variable and then an
  unregistered variable.\<close>

definition rule_bogus :: FuzzyRule where
  "rule_bogus =
     \<lparr>rule_if = [(''temperature'', Single ''bogus''), (''unknown'', Single ''cold'')],
      rule_then = [(''fanSpeed'', ''low'')], weight = None, description = None\<rparr>"





text \<open>A membership function that is \<open>1\<close> at \<open>10\<close> and \<open>0\<close> elsewhere.\<close>

definition spike_at_10 :: MembershipFunction where
  "spike_at_10 x = (if x = 10 then 1 else 0)"








section \<open>The triangular shape\<close>

text \<open>
  Claim C3, as amended.  Every triple \<open>a \<le> b \<le> c\<close> is accepted and the returned function
  is \<open>0\<close> at \<open>a\<close> and at \<open>c\<close>.  When the triangle is proper, \<open>a < b < c\<close>, the function is
  \<open>1\<close> at \<open>b\<close>, non-decreasing on \<open>[a, b]\<close> and non-increasing on \<open>[b, c]\<close>.
\<close>

theorem triangular_shape:
  assumes "a \<le> b" and "b \<le> c"
  shows "triangular a b c = Inr (triangular_mf a b c) \<and>
         triangular_mf a b c a = 0 \<and> triangular_mf a b c c = 0 \<and>
         (a < b \<and> b < c \<longrightarrow>
            triangular_mf a b c b = 1 \<and>
            (\<forall>x y. a \<le> x \<and> x \<le> y \<and> y \<le> b \<longrightarrow>
               triangular_mf a b c x \<le> triangular_mf a b c y) \<and>
            (\<forall>x y. b \<le> x \<and> x \<le> y \<and> y \<le> c \<longrightarrow>
               triangular_mf a b c y \<le> triangular_mf a b c x))"
proof -
  have acc: "triangular a b c = Inr (triangular_mf a b c)"
    using assms by (simp add: triangular_def)
  have feet: "triangular_mf a b c a = 0" "triangular_mf a b c c = 0"
    by (simp_all add: triangular_mf_def)
  have strict: "triangular_mf a b c b = 1 \<and>
            (\<forall>x y. a \<le> x \<and> x \<le> y \<and> y \<le> b \<longrightarrow>
               triangular_mf a b c x \<le> triangular_mf a b c y) \<and>
            (\<forall>x y. b \<le> x \<and> x \<le> y \<and> y \<le> c \<longrightarrow>
               triangular_mf a b c y \<le> triangular_mf a b c x)"
    if ab: "a < b" and bc: "b < c"
  proof (intro conjI allI impI)
    show "triangular_mf a b c b = 1" using ab bc by (simp add: triangular_mf_def)
  next
    fix x y assume h: "a \<le> x \<and> x \<le> y \<and> y \<le> b"
    have up: "triangular_mf a b c z = (z - a) / (b - a)" if "a \<le> z" "z \<le> b" for z
      using that ab bc by (auto simp: triangular_mf_def)
    have "(x - a) / (b - a) \<le> (y - a) / (b - a)"
      using h ab by (simp add: divide_right_mono)
    then show "triangular_mf a b c x \<le> triangular_mf a b c y"
      using h up [of x] up [of y] by simp
  next
    fix x y assume h: "b \<le> x \<and> x \<le> y \<and> y \<le> c"
    have down: "triangular_mf a b c z = (c - z) / (c - b)" if "b \<le> z" "z \<le> c" for z
      using that ab bc by (auto simp: triangular_mf_def)
    have "(c - y) / (c - b) \<le> (c - x) / (c - b)"
      using h bc by (simp add: divide_right_mono)
    then show "triangular_mf a b c y \<le> triangular_mf a b c x"
      using h down [of x] down [of y] by simp
  qed
  from acc feet strict show ?thesis by blast
qed

theorem triangular_shape_witness:
  "triangular 0 50 100 = Inr (triangular_mf 0 50 100) \<and>
   triangular_mf 0 50 100 0 = 0 \<and> triangular_mf 0 50 100 100 = 0 \<and>
   triangular_mf 0 50 100 50 = 1 \<and>
   triangular_mf 0 50 100 25 \<le> triangular_mf 0 50 100 40 \<and>
   triangular_mf 0 50 100 75 \<le> triangular_mf 0 50 100 60"
proof -
  have h: "(0::real) \<le> 50" "(50::real) \<le> 100" by simp_all
  from triangular_shape [OF h] show ?thesis by simp
qed

text \<open>The claim as stated fails on a triangle with a vertical left edge: \<open>triangular(0, 0, 10)\<close>
  is accepted, its function is \<open>0\<close> at the peak \<open>b = 0\<close>, and it rises after \<open>b\<close>.\<close>

theorem triangular_peak_counterexample:
  "triangular 0 0 10 = Inr (triangular_mf 0 0 10) \<and> triangular_mf 0 0 10 0 = 0 \<and>
   triangular_mf 0 0 10 0 < triangular_mf 0 0 10 5"
  by (simp add: triangular_def triangular_mf_def)

section \<open>Sampling loops\<close>




lemma for_down_not_entered: "x < lo \<Longrightarrow> for_down body lo step x s = Some (Inl s)"
  by (simp add: for_down.simps)



section \<open>Reflexivity of the sampled comparisons\<close>








section \<open>Range inference\<close>

lemma Min_insert_Min:
  fixes A B :: "real set"
  assumes "finite A" and "finite B"
  shows "Min (insert (Min (insert a A)) B) = Min (insert a (A \<union> B))"
proof (cases "B = {}")
  case True
  then show ?thesis by simp
next
  case False
  have "Min (insert a (A \<union> B)) = Min (insert a A \<union> B)" by simp
  also have "\<dots> = min (Min (insert a A)) (Min B)"
    using assms False by (intro Min_Un) simp_all
  also have "\<dots> = Min (insert (Min (insert a A)) B)"
    using assms False by simp
  finally show ?thesis by simp
qed

lemma Max_insert_Max:
  fixes A B :: "real set"
  assumes "finite A" and "finite B"
  shows "Max (insert (Max (insert a A)) B) = Max (insert a (A \<union> B))"
proof (cases "B = {}")
  case True
  then show ?thesis by simp
next
  case False
  have "Max (insert a (A \<union> B)) = Max (insert a A \<union> B)" by simp
  also have "\<dots> = max (Max (insert a A)) (Max B)"
    using assms False by (intro Max_Un) simp_all
  also have "\<dots> = Max (insert (Max (insert a A)) B)"
    using assms False by simp
  finally show ?thesis by simp
qed

lemma probe_points:
  fixes P :: "real \<Rightarrow> bool" and mn mx :: real
  shows "foldl (\<lambda>(mn, mx) x. if P x then (min mn x, max mx x) else (mn, mx)) (mn, mx) xs =
     (Min (insert mn {x \<in> set xs. P x}), Max (insert mx {x \<in> set xs. P x}))"
proof (induction xs arbitrary: mn mx)
  case Nil
  show ?case by simp
next
  case (Cons x xs)
  let ?S = "{y \<in> set xs. P y}"
  have fin: "finite ?S" by simp
  show ?case
  proof (cases "P x")
    case True
    have set_eq: "{y \<in> set (x # xs). P y} = {x} \<union> ?S"
      using True by auto
    have "Min (insert (min mn x) ?S) = Min (insert mn ({x} \<union> ?S))"
      using Min_insert_Min [of "{x}" ?S mn] fin by (simp add: min.commute)
    moreover have "Max (insert (max mx x) ?S) = Max (insert mx ({x} \<union> ?S))"
      using Max_insert_Max [of "{x}" ?S mx] fin by (simp add: max.commute)
    ultimately show ?thesis
      using True Cons.IH [of "min mn x" "max mx x"]
      by (simp only: foldl_Cons prod.case if_True set_eq)
  next
    case False
    have set_eq: "{y \<in> set (x # xs). P y} = ?S"
      using False by auto
    show ?thesis using False Cons.IH [of mn mx]
      by (simp only: foldl_Cons prod.case if_False set_eq)
  qed
qed

lemma exceeding_Cons:
  "exceeding (mf # mfs) = {x \<in> set testPoints. mf x > 1 / 100} \<union> exceeding mfs"
  by (auto simp: exceeding_def)

lemma finite_exceeding: "finite (exceeding mfs)"
  by (simp add: exceeding_def)

lemma inferRange_sets:
  fixes mn mx :: real
  shows "foldl (\<lambda>acc mf.
              foldl (\<lambda>(mn, mx) x.
                       if mf x > 1 / 100 then (min mn x, max mx x) else (mn, mx))
                acc testPoints) (mn, mx) mfs =
   (Min (insert mn (exceeding mfs)), Max (insert mx (exceeding mfs)))"
proof (induction mfs arbitrary: mn mx)
  case Nil
  show ?case by (simp add: exceeding_def)
next
  case (Cons mf mfs)
  let ?A = "{x \<in> set testPoints. mf x > 1 / 100}"
  have finA: "finite ?A" by simp
  have inner: "foldl (\<lambda>(mn, mx) x.
                       if mf x > 1 / 100 then (min mn x, max mx x) else (mn, mx))
                (mn, mx) testPoints = (Min (insert mn ?A), Max (insert mx ?A))"
    by (rule probe_points)
  show ?case
    by (simp only: foldl_Cons inner Cons.IH exceeding_Cons
        Min_insert_Min [OF finA finite_exceeding] Max_insert_Max [OF finA finite_exceeding])
qed

lemma inferRange_exceeding:
  "inferRange fsets =
     (Min (insert 0 (exceeding (map snd fsets))), Max (insert 100 (exceeding (map snd fsets))))"
  unfolding inferRange_def by (rule inferRange_sets)

lemma exceeding_subset: "exceeding mfs \<subseteq> {-1000, -100, -10, 0, 10, 100, 1000}"
  by (auto simp: exceeding_def testPoints_def)

lemma Min_insert_eq_iff:
  fixes E :: "real set"
  assumes "finite E"
  shows "Min (insert a E) = a \<longleftrightarrow> (\<forall>x \<in> E. a \<le> x)"
proof
  assume "Min (insert a E) = a"
  then show "\<forall>x \<in> E. a \<le> x"
    using assms Min_le [of "insert a E"] by auto
next
  assume "\<forall>x \<in> E. a \<le> x"
  then show "Min (insert a E) = a"
    using assms by (intro Min_eqI) auto
qed

lemma Max_insert_eq_iff:
  fixes E :: "real set"
  assumes "finite E"
  shows "Max (insert a E) = a \<longleftrightarrow> (\<forall>x \<in> E. x \<le> a)"
proof
  assume "Max (insert a E) = a"
  then show "\<forall>x \<in> E. x \<le> a"
    using assms Max_ge [of "insert a E"] by auto
next
  assume "\<forall>x \<in> E. x \<le> a"
  then show "Max (insert a E) = a"
    using assms by (intro Max_eqI) auto
qed

lemma inferRange_default_iff:
  "inferRange fsets = (0, 100) \<longleftrightarrow> exceeding (map snd fsets) \<subseteq> {0, 10, 100}"
proof -
  let ?E = "exceeding (map snd fsets)"
  have fin: "finite ?E" by (rule finite_exceeding)
  have sub: "?E \<subseteq> {-1000, -100, -10, 0, 10, 100, 1000}" by (rule exceeding_subset)
  have "(\<forall>x \<in> ?E. 0 \<le> x) \<and> (\<forall>x \<in> ?E. x \<le> 100) \<longleftrightarrow> ?E \<subseteq> {0, 10, 100}"
  proof
    assume bounds: "(\<forall>x \<in> ?E. 0 \<le> x) \<and> (\<forall>x \<in> ?E. x \<le> 100)"
    show "?E \<subseteq> {0, 10, 100}"
    proof
      fix x assume x: "x \<in> ?E"
      then have "x \<in> {-1000, -100, -10, 0, 10, 100, 1000}" using sub by blast
      moreover have "0 \<le> x" "x \<le> 100" using bounds x by blast+
      ultimately show "x \<in> {0, 10, 100}" by auto
    qed
  next
    assume "?E \<subseteq> {0, 10, 100}"
    then show "(\<forall>x \<in> ?E. 0 \<le> x) \<and> (\<forall>x \<in> ?E. x \<le> 100)" by auto
  qed
  then show ?thesis
    by (simp add: inferRange_exceeding Min_insert_eq_iff [OF fin] Max_insert_eq_iff [OF fin])
qed

text \<open>
  Claim C2, as amended.  A variable registered by \<open>addVariable\<close> or \<open>addOutput\<close> without an
  explicit range stores the range \<open>[min, max]\<close> taken over the default window's ends \<open>0\<close> and
  \<open>100\<close> together with the probe points at which some membership function exceeds \<open>0.01\<close>:
  the stored range always contains \<open>[0, 100]\<close>.  It equals \<open>[0, 100]\<close> exactly when no
  membership function exceeds \<open>0.01\<close> at any of the probe points \<open>-1000\<close>, \<open>-100\<close>, \<open>-10\<close> and
  \<open>1000\<close>.
\<close>

theorem inferred_range:
  "var_range (the (variables (addVariable e name fsets None) name)) = inferRange fsets \<and>
   var_range (the (variables (addOutput e name fsets None) name)) = inferRange fsets \<and>
   inferRange fsets =
     (Min (insert 0 (exceeding (map snd fsets))), Max (insert 100 (exceeding (map snd fsets)))) \<and>
   (inferRange fsets = (0, 100) \<longleftrightarrow> exceeding (map snd fsets) \<subseteq> {0, 10, 100})"
  using inferRange_exceeding [of fsets] inferRange_default_iff [of fsets]
  by (simp add: addVariable_def addOutput_def)

lemma exceeding_spike: "exceeding (map snd [(''warm'', spike_at_10)]) = {10}"
  by (auto simp: exceeding_def testPoints_def spike_at_10_def)

theorem inferred_range_witness:
  "var_range (the (variables (addVariable initial_engine ''t'' [(''warm'', spike_at_10)] None) ''t''))
     = (0, 100)"
proof -
  note ir = inferred_range [of initial_engine "''t''" "[(''warm'', spike_at_10)]"]
  have "inferRange [(''warm'', spike_at_10)] = (0, 100)"
    using ir [THEN conjunct2, THEN conjunct2, THEN conjunct2] exceeding_spike by simp
  with ir [THEN conjunct1] show ?thesis by (simp only:)
qed

text \<open>A variable whose only membership function exceeds \<open>0.01\<close> at the probe point \<open>10\<close>
  alone is stored with the range \<open>[0, 100]\<close>, not \<open>[10, 10]\<close>, although a probe point
  qualifies.\<close>

theorem inferred_range_counterexample:
  "var_range (the (variables (addVariable initial_engine ''t'' [(''warm'', spike_at_10)] None) ''t''))
     = (0, 100) \<and>
   exceeding (map snd [(''warm'', spike_at_10)]) = {10}"
proof -
  have "inferRange [(''warm'', spike_at_10)] = (0, 100)"
    using inferRange_default_iff [of "[(''warm'', spike_at_10)]"] exceeding_spike by simp
  then show ?thesis
    using exceeding_spike by (simp add: addVariable_def)
qed

section \<open>Rule registration\<close>

lemma validateAntecedent_cong:
  assumes "variables e' = variables e"
  shows "validateAntecedent e' es = validateAntecedent e es"
proof (induction es)
  case Nil
  show ?case by simp
next
  case (Cons entry es)
  obtain varName terms where "entry = (varName, terms)" by (cases entry)
  with Cons assms show ?case by (simp cong: option.case_cong sum.case_cong)
qed

lemma validateConsequent_cong:
  assumes "variables e' = variables e"
  shows "validateConsequent e' es = validateConsequent e es"
proof (induction es)
  case Nil
  show ?case by simp
next
  case (Cons entry es)
  obtain varName t where "entry = (varName, t)" by (cases entry)
  with Cons assms show ?case by (simp cong: option.case_cong if_cong)
qed

lemma validateRule_cong:
  assumes "variables e' = variables e"
  shows "validateRule e' r = validateRule e r"
  unfolding validateRule_def
  by (simp only: validateAntecedent_cong [OF assms] validateConsequent_cong [OF assms])

lemma validateRule_rules_update [simp]:
  "validateRule (e\<lparr>rules := rs\<rparr>) r = validateRule e r"
  by (rule validateRule_cong) simp

lemma addRules_outcome:
  "fst (addRules e rs) =
     (case dropWhile (\<lambda>r. validateRule e r = Inr ()) rs of
        [] \<Rightarrow> Inr ()
      | r # rest \<Rightarrow> validateRule e r) \<and>
   snd (addRules e rs) = e\<lparr>rules := rules e @ takeWhile (\<lambda>r. validateRule e r = Inr ()) rs\<rparr>"
proof (induction rs arbitrary: e)
  case Nil
  show ?case by simp
next
  case (Cons r rs)
  show ?case
  proof (cases "validateRule e r")
    case (Inl err)
    then show ?thesis by (simp add: addRule_def)
  next
    case (Inr u)
    then show ?thesis
      using Cons.IH [of "e\<lparr>rules := rules e @ [r]\<rparr>"]
      by (simp add: addRule_def cong: list.case_cong)
  qed
qed

text \<open>
  Claim C4, as amended.  When some rule of the list fails validation, \<open>addRules(rules)\<close>
  throws the error of the first rule that fails; the rules before it in the list have been
  added, in order, and neither it nor any later rule has: \<open>getRules()\<close> afterwards returns
  the rules it returned before followed by that valid prefix of the list.
\<close>

theorem addRules_fail_fast:
  assumes "\<exists>r \<in> set rs. validateRule e r \<noteq> Inr ()"
  shows "\<exists>err. fst (addRules e rs) = Inl err \<and>
           validateRule e (hd (dropWhile (\<lambda>r. validateRule e r = Inr ()) rs)) = Inl err \<and>
           getRules (snd (addRules e rs)) =
             getRules e @ takeWhile (\<lambda>r. validateRule e r = Inr ()) rs"
proof -
  let ?valid = "\<lambda>r. validateRule e r = Inr ()"
  from assms have "dropWhile ?valid rs \<noteq> []" by (auto simp: dropWhile_eq_Nil_conv)
  then obtain r rest where dw: "dropWhile ?valid rs = r # rest"
    by (cases "dropWhile ?valid rs") auto
  then have "\<not> ?valid r" using hd_dropWhile [of ?valid rs] by auto
  then obtain err where err: "validateRule e r = Inl err"
    by (cases "validateRule e r") auto
  show ?thesis
    using addRules_outcome [of e rs] dw err by (simp add: getRules_def)
qed

lemma example_variables:
  "variables example_engine ''temperature'' =
     Some \<lparr>var_name = ''temperature'',
           var_sets = [(''cold'', triangular_mf 0 20 40), (''warm'', triangular_mf 30 50 70),
             (''hot'', triangular_mf 60 80 100)],
           var_range = (0, 100), isOutput = False\<rparr>"
  "variables example_engine ''fanSpeed'' =
     Some \<lparr>var_name = ''fanSpeed'',
           var_sets = [(''low'', triangular_mf 0 25 50), (''medium'', triangular_mf 30 50 70),
             (''high'', triangular_mf 50 75 100)],
           var_range = (0, 100), isOutput = True\<rparr>"
  "variables example_engine ''unknown'' = None"
  "rules example_engine = []"
  by (simp_all add: example_engine_def addOutput_def addVariable_def initial_engine_def)

lemma example_validation:
  "validateRule example_engine rule_warm = Inr ()"
  "validateRule example_engine rule_hot = Inr ()"
  "validateRule example_engine rule_bogus = Inl (UnknownTerm ''bogus'' ''temperature'')"
  by (simp_all add: validateRule_def rule_warm_def rule_hot_def rule_bogus_def example_variables)

theorem addRules_fail_fast_witness:
  "fst (addRules example_engine [rule_warm, rule_bogus, rule_hot]) =
     Inl (UnknownTerm ''bogus'' ''temperature'') \<and>
   getRules (snd (addRules example_engine [rule_warm, rule_bogus, rule_hot])) = [rule_warm]"
proof -
  have "\<exists>r \<in> set [rule_warm, rule_bogus, rule_hot]. validateRule example_engine r \<noteq> Inr ()"
    by (simp add: example_validation)
  from addRules_fail_fast [OF this] show ?thesis
    by (simp add: example_validation getRules_def example_variables)
qed

text \<open>The list \<open>[rule_warm, rule_bogus]\<close> holds a rule that fails validation; the call throws,
  and the engine, which had no rule, has \<open>rule_warm\<close> afterwards.\<close>

theorem addRules_partial_mutation_counterexample:
  "getRules example_engine = [] \<and>
   validateRule example_engine rule_bogus = Inl (UnknownTerm ''bogus'' ''temperature'') \<and>
   fst (addRules example_engine [rule_warm, rule_bogus]) =
     Inl (UnknownTerm ''bogus'' ''temperature'') \<and>
   getRules (snd (addRules example_engine [rule_warm, rule_bogus])) = [rule_warm]"
  using addRules_outcome [of example_engine "[rule_warm, rule_bogus]"]
  by (simp add: example_validation getRules_def example_variables)








section \<open>Defuzzification on a proper range\<close>









section \<open>Defuzzifying the constant-zero function\<close>











section \<open>Records as association lists\<close>


lemma keys_assign:
  "map fst (assign kvs k v) = (if k \<in> fst ` set kvs then map fst kvs else map fst kvs @ [k])"
  by (induction kvs) force+

lemma distinct_assign: "distinct (map fst kvs) \<Longrightarrow> distinct (map fst (assign kvs k v))"
  by (simp add: keys_assign)






section \<open>Fuzzification and rule evaluation\<close>





section \<open>A rule of weight zero\<close>







section \<open>Aggregation\<close>

lemma impliedFor_Nil [simp]: "impliedFor e k [] = []"
  by (simp add: impliedFor_def)

















section \<open>Degrees and firing strengths\<close>













section \<open>The aggregated functions have no negative degree\<close>







section \<open>Defuzzifying the outputs\<close>





section \<open>The records of an evaluation\<close>










section \<open>Crisp outputs and the registered range\<close>
















section \<open>The order of the rules\<close>

subsection \<open>No stage but rule evaluation reads the rule list\<close>










subsection \<open>Aggregation of a permuted list of functions\<close>








subsection \<open>Defuzzification of a permuted record\<close>






end
